theory Spec2Isabelle
  imports Main
begin

section \<open>strip\_pdf\_metadata: removing document metadata from PDF files\<close>

text \<open>
  The program (\<^verbatim>\<open>src/utils/strip_pdf_metadata.py\<close>) is a command-line driver around
  the pypdf library. The embedding keeps the three functions of the source,
  \<^verbatim>\<open>resolve_output_path\<close>, \<^verbatim>\<open>strip_metadata\<close> and \<^verbatim>\<open>main\<close>, and makes their effects
  explicit: the file system is a map from paths to file contents, the two output
  streams are lists of lines, an exception is the \<open>Inl\<close> of a sum.
  What the source consumes from outside (pathlib's resolution of an argument against the
  working directory, the operating system's refusals, and the PDF library itself) is a
  record of functions, the environment, over which every theorem is universally quantified.
\<close>

subsection \<open>Paths (pathlib, POSIX flavour)\<close>

text \<open>
  A resolved absolute path is the list of its components below the root; the root is the
  empty list. Two paths are equal when their components are (as \<^verbatim>\<open>PurePosixPath.__eq__\<close>).
\<close>

type_synonym path = "string list"

text \<open>\<^verbatim>\<open>str(path)\<close>.\<close>

fun path_str :: "path \<Rightarrow> string" where
  "path_str [] = ''/''"
| "path_str (c # cs) = concat (map (\<lambda>x. ''/'' @ x) (c # cs))"

text \<open>\<^verbatim>\<open>path.name\<close>: the final component, empty for the root.\<close>

definition path_name :: "path \<Rightarrow> string" where
  "path_name p = (if p = [] then [] else last p)"

text \<open>\<^verbatim>\<open>str.rfind(c)\<close>: the index of the last occurrence, \<open>None\<close> for Python's \<open>-1\<close>.\<close>

fun rfind :: "char \<Rightarrow> string \<Rightarrow> nat option" where
  "rfind c [] = None"
| "rfind c (x # xs) =
     (case rfind c xs of
        Some i \<Rightarrow> Some (Suc i)
      | None \<Rightarrow> if x = c then Some 0 else None)"

text \<open>
  \<^verbatim>\<open>path.suffix\<close> and \<^verbatim>\<open>path.stem\<close>, as pathlib computes them:
  \<^verbatim>\<open>i = name.rfind('.'); if 0 < i < len(name) - 1: name[i:] (name[:i]) else '' (name)\<close>.
  A leading dot and a trailing dot do not start a suffix.
\<close>

definition path_suffix :: "path \<Rightarrow> string" where
  "path_suffix p =
     (let name = path_name p in
      case rfind (CHR ''.'') name of
        None \<Rightarrow> []
      | Some i \<Rightarrow> if 0 < i \<and> i + 1 < length name then drop i name else [])"

definition path_stem :: "path \<Rightarrow> string" where
  "path_stem p =
     (let name = path_name p in
      case rfind (CHR ''.'') name of
        None \<Rightarrow> name
      | Some i \<Rightarrow> if 0 < i \<and> i + 1 < length name then take i name else name)"

text \<open>
  \<^verbatim>\<open>str.lower()\<close> on the ASCII letters. No character outside ASCII lowers to one of
  \<open>p\<close>, \<open>d\<close>, \<open>f\<close> or the dot, so the comparison with \<^verbatim>\<open>".pdf"\<close> is the source's.
\<close>

definition lower_char :: "char \<Rightarrow> char" where
  "lower_char c =
     (case map_of (zip ''ABCDEFGHIJKLMNOPQRSTUVWXYZ'' ''abcdefghijklmnopqrstuvwxyz'') c of
        Some l \<Rightarrow> l
      | None \<Rightarrow> c)"

definition lower :: "string \<Rightarrow> string" where
  "lower s = map lower_char s"

subsection \<open>Exceptions\<close>

text \<open>
  \<open>ValueError\<close> and \<open>FileExistsError\<close> are the two exceptions the source raises itself;
  \<open>ExternalError\<close> is any exception raised by the PDF library or the operating
  system. Each carries the text that \<^verbatim>\<open>str(exc)\<close> gives.
\<close>

datatype error = ValueError string | FileExistsError string | ExternalError string

fun message :: "error \<Rightarrow> string" where
  "message (ValueError m) = m"
| "message (FileExistsError m) = m"
| "message (ExternalError m) = m"

text \<open>
  \<^verbatim>\<open>path.with_name(name)\<close>: raises \<^verbatim>\<open>ValueError\<close> when the path has no name (the root) and
  when the new name is empty, is a single dot or holds a separator.
\<close>

definition with_name :: "path \<Rightarrow> string \<Rightarrow> error + path" where
  "with_name p name =
     (if path_name p = [] then Inl (ValueError (path_str p @ '' has an empty name''))
      else if name = [] \<or> CHR ''/'' \<in> set name \<or> name = ''.''
        then Inl (ValueError (''Invalid name '' @ name))
      else Inr (butlast p @ [name]))"

subsection \<open>Files, documents and the environment\<close>

type_synonym bytes = string

text \<open>The regular files of the file system: \<^verbatim>\<open>path.exists()\<close> is \<open>fs p \<noteq> None\<close>.\<close>

type_synonym filesystem = "path \<rightharpoonup> bytes"

text \<open>
  The \<^verbatim>\<open>PdfWriter\<close> as far as the source touches it: the two metadata attributes it
  assigns, \<^verbatim>\<open>xmp_metadata\<close> and \<^verbatim>\<open>_info\<close>, and the rest of the cloned object graph (pages,
  structure, attachments).
\<close>

record pdf_writer =
  xmp_metadata :: "string option"
  info :: "(string \<times> string) list option"
  objects :: "string list"

text \<open>
  \<^verbatim>\<open>writer.write(f)\<close> either writes the whole document, or raises after it has written
  some prefix of it (possibly nothing) to the stream.
\<close>

datatype write_outcome = Written bytes | WriteFailed bytes error

text \<open>
  The environment. \<open>'r\<close> is the library's \<^verbatim>\<open>PdfReader\<close>.
  \<^item> \<open>resolve_arg\<close> is \<^verbatim>\<open>Path(s).expanduser().resolve()\<close>;
  \<^item> \<open>open_error\<close> and \<open>replace_error\<close> are the operating system refusing
    \<^verbatim>\<open>open("wb")\<close> and \<^verbatim>\<open>os.replace\<close>;
  \<^item> \<open>PdfReader\<close> parses the bytes of a file, \<open>is_encrypted\<close> and \<open>decrypt\<close> are
    the reader's attribute and method (\<open>decrypt\<close> returns the number the source compares
    with 0 and the reader it has changed), \<open>clone_document_from_reader\<close> builds the writer,
    \<open>write_pdf\<close> is \<^verbatim>\<open>writer.write\<close> (\<open>write\<close> is a keyword of Isabelle).
\<close>

record 'r environment =
  resolve_arg :: "string \<Rightarrow> path"
  open_error :: "path \<Rightarrow> error option"
  replace_error :: "path \<Rightarrow> path \<Rightarrow> error option"
  PdfReader :: "bytes \<Rightarrow> error + 'r"
  is_encrypted :: "'r \<Rightarrow> bool"
  decrypt :: "'r \<Rightarrow> string \<Rightarrow> nat \<times> 'r"
  clone_document_from_reader :: "'r \<Rightarrow> error + pdf_writer"
  write_pdf :: "pdf_writer \<Rightarrow> write_outcome"

text \<open>
  Python's truth value of an optional string: \<^verbatim>\<open>None\<close> and \<^verbatim>\<open>""\<close> are both false.
  \<open>truthy a = Some s\<close> when \<^verbatim>\<open>if a:\<close> takes its branch with the string \<open>s\<close>.
\<close>

fun truthy :: "string option \<Rightarrow> string option" where
  "truthy None = None"
| "truthy (Some s) = (if s = [] then None else Some s)"

subsection \<open>resolve\_output\_path\<close>

text \<open>Lines 49 to 58: the choice of the output path, before the existence check.\<close>

definition select_output_path ::
  "'r environment \<Rightarrow> path \<Rightarrow> string option \<Rightarrow> bool \<Rightarrow> bool \<Rightarrow> error + path" where
  "select_output_path env input_path output_arg in_place multiple_inputs =
     (case truthy output_arg of
        Some arg \<Rightarrow>
          if multiple_inputs
            then Inl (ValueError ''--output can be used only with a single input.'')
          else if in_place
            then Inl (ValueError ''Use either --output or --in-place, not both.'')
          else Inr (resolve_arg env arg)
      | None \<Rightarrow>
          if in_place then Inr input_path
          else with_name input_path (path_stem input_path @ ''-stripped.pdf''))"

text \<open>The message of the \<^verbatim>\<open>FileExistsError\<close> of line 61.\<close>

definition exists_message :: "path \<Rightarrow> string" where
  "exists_message output_path =
     ''Output already exists: '' @ path_str output_path @ '' (use --force to overwrite).''"

text \<open>The whole function: lines 49 to 65.\<close>

definition resolve_output_path ::
  "'r environment \<Rightarrow> filesystem \<Rightarrow> path \<Rightarrow> string option \<Rightarrow> bool \<Rightarrow> bool \<Rightarrow> bool
     \<Rightarrow> error + path" where
  "resolve_output_path env fs input_path output_arg in_place force multiple_inputs =
     (case select_output_path env input_path output_arg in_place multiple_inputs of
        Inl e \<Rightarrow> Inl e
      | Inr output_path \<Rightarrow>
          if fs output_path \<noteq> None \<and> output_path \<noteq> input_path \<and> \<not> force
            then Inl (FileExistsError (exists_message output_path))
          else Inr output_path)"

subsection \<open>strip\_metadata\<close>

text \<open>Line 69: \<^verbatim>\<open>PdfReader(str(input_path))\<close> opens and parses the file.\<close>

definition read_pdf :: "'r environment \<Rightarrow> filesystem \<Rightarrow> path \<Rightarrow> error + 'r" where
  "read_pdf env fs input_path =
     (case fs input_path of
        None \<Rightarrow> Inl (ExternalError (''No such file or directory: '' @ path_str input_path))
      | Some content \<Rightarrow> PdfReader env content)"

text \<open>Lines 70 to 74: the reader after the password check.\<close>

definition unlock :: "'r environment \<Rightarrow> 'r \<Rightarrow> path \<Rightarrow> string option \<Rightarrow> error + 'r" where
  "unlock env reader input_path password =
     (if is_encrypted env reader then
        (case truthy password of
           None \<Rightarrow>
             Inl (ValueError (''Encrypted PDF requires --password: '' @ path_str input_path))
         | Some pw \<Rightarrow>
             (case decrypt env reader pw of
                (n, reader') \<Rightarrow>
                  if n = 0
                    then Inl (ValueError
                      (''Failed to decrypt PDF with provided password: '' @ path_str input_path))
                  else Inr reader'))
      else Inr reader)"

text \<open>
  \<^verbatim>\<open>with p.open("wb") as f: writer.write(f)\<close>: opening creates or truncates the file; what
  the writer has written is in the file when the block is left, by return or by exception.
\<close>

definition write_to ::
  "'r environment \<Rightarrow> filesystem \<Rightarrow> path \<Rightarrow> pdf_writer \<Rightarrow> (error + unit) \<times> filesystem" where
  "write_to env fs p writer =
     (case open_error env p of
        Some e \<Rightarrow> (Inl e, fs)
      | None \<Rightarrow>
          (case write_pdf env writer of
             Written content \<Rightarrow> (Inr (), fs(p \<mapsto> content))
           | WriteFailed partial e \<Rightarrow> (Inl e, fs(p \<mapsto> partial))))"

text \<open>\<^verbatim>\<open>src.replace(dst)\<close>: the rename of \<^verbatim>\<open>os.replace\<close>.\<close>

definition replace_file ::
  "'r environment \<Rightarrow> filesystem \<Rightarrow> path \<Rightarrow> path \<Rightarrow> (error + unit) \<times> filesystem" where
  "replace_file env fs src dst =
     (case replace_error env src dst of
        Some e \<Rightarrow> (Inl e, fs)
      | None \<Rightarrow>
          (case fs src of
             None \<Rightarrow> (Inl (ExternalError (''No such file or directory: '' @ path_str src)), fs)
           | Some content \<Rightarrow> (Inr (), (fs(dst \<mapsto> content))(src := None))))"

text \<open>Lines 81 to 88: where the writer is serialised to.\<close>

definition store ::
  "'r environment \<Rightarrow> filesystem \<Rightarrow> path \<Rightarrow> path \<Rightarrow> pdf_writer \<Rightarrow> (error + unit) \<times> filesystem" where
  "store env fs input_path output_path writer =
     (if output_path = input_path then
        (case with_name input_path (path_stem input_path @ ''.tmp.pdf'') of
           Inl e \<Rightarrow> (Inl e, fs)
         | Inr tmp_path \<Rightarrow>
             (case write_to env fs tmp_path writer of
                (Inl e, fs') \<Rightarrow> (Inl e, fs')
              | (Inr u, fs') \<Rightarrow> replace_file env fs' tmp_path input_path))
      else write_to env fs output_path writer)"

text \<open>The whole function: lines 69 to 88. It returns the file system it leaves.\<close>

definition strip_metadata ::
  "'r environment \<Rightarrow> filesystem \<Rightarrow> path \<Rightarrow> path \<Rightarrow> string option
     \<Rightarrow> (error + unit) \<times> filesystem" where
  "strip_metadata env fs input_path output_path password =
     (case read_pdf env fs input_path of
        Inl e \<Rightarrow> (Inl e, fs)
      | Inr reader \<Rightarrow>
          (case unlock env reader input_path password of
             Inl e \<Rightarrow> (Inl e, fs)
           | Inr reader' \<Rightarrow>
               (case clone_document_from_reader env reader' of
                  Inl e \<Rightarrow> (Inl e, fs)
                | Inr writer \<Rightarrow>
                    store env fs input_path output_path
                      (writer\<lparr>xmp_metadata := None, info := None\<rparr>))))"

subsection \<open>main\<close>

text \<open>
  The parsed command line (\<^verbatim>\<open>argparse.Namespace\<close>); \<open>output_opt\<close> is \<^verbatim>\<open>args.output\<close>
  (\<open>output\<close> is a keyword of Isabelle).
\<close>

record args =
  inputs :: "string list"
  output_opt :: "string option"
  in_place :: bool
  password :: "string option"
  force :: bool

text \<open>What a run can change: the files and the two streams, a list of lines each.\<close>

record world =
  files :: filesystem
  stdout :: "string list"
  stderr :: "string list"

text \<open>Line 99: the extension test.\<close>

definition is_pdf :: "path \<Rightarrow> bool" where
  "is_pdf p = (lower (path_suffix p) = ''.pdf'')"

text \<open>
  Lines 95 to 101: the first loop. \<open>Some line\<close> is the line printed to the error stream
  before \<^verbatim>\<open>return 1\<close>; \<open>None\<close> is the loop running to its end.
\<close>

fun validate :: "filesystem \<Rightarrow> path list \<Rightarrow> string option" where
  "validate fs [] = None"
| "validate fs (p # ps) =
     (if fs p = None then Some (''ERROR: File not found: '' @ path_str p)
      else if \<not> is_pdf p then Some (''ERROR: Not a PDF file: '' @ path_str p)
      else validate fs ps)"

text \<open>Line 113.\<close>

definition processed_line :: "path \<Rightarrow> path \<Rightarrow> string" where
  "processed_line p out_path = ''Processed: '' @ path_str p @ '' -> '' @ path_str out_path"

text \<open>
  Lines 104 to 113: the second loop. \<open>Some exc\<close> is the exception that leaves the loop,
  with the world as it is at that moment.
\<close>

fun process_inputs ::
  "'r environment \<Rightarrow> args \<Rightarrow> bool \<Rightarrow> path list \<Rightarrow> world \<Rightarrow> error option \<times> world" where
  "process_inputs env a multiple [] w = (None, w)"
| "process_inputs env a multiple (p # ps) w =
     (case resolve_output_path env (files w) p (output_opt a) (in_place a) (force a) multiple of
        Inl exc \<Rightarrow> (Some exc, w)
      | Inr out_path \<Rightarrow>
          (case strip_metadata env (files w) p out_path (password a) of
             (Inl exc, fs') \<Rightarrow> (Some exc, w\<lparr>files := fs'\<rparr>)
           | (Inr u, fs') \<Rightarrow>
               process_inputs env a multiple ps
                 (w\<lparr>files := fs', stdout := stdout w @ [processed_line p out_path]\<rparr>)))"

text \<open>Lines 91 to 118: the exit code and the world the run leaves.\<close>

definition main :: "'r environment \<Rightarrow> args \<Rightarrow> world \<Rightarrow> int \<times> world" where
  "main env a w =
     (let input_paths = map (resolve_arg env) (inputs a) in
      case validate (files w) input_paths of
        Some line \<Rightarrow> (1, w\<lparr>stderr := stderr w @ [line]\<rparr>)
      | None \<Rightarrow>
          (case process_inputs env a (1 < length input_paths) input_paths w of
             (Some exc, w') \<Rightarrow> (1, w'\<lparr>stderr := stderr w' @ [''ERROR: '' @ message exc]\<rparr>)
           | (None, w') \<Rightarrow> (0, w')))"

subsection \<open>A small environment to run the program in\<close>

text \<open>
  A stand-in for the library, used to evaluate the functions above on concrete runs. A file
  holding \<open>plain\<close> parses to an unencrypted document, one holding \<open>locked\<close> to an
  encrypted one whose password is \<open>secret\<close>; anything else is not a PDF. Arguments resolve
  against the working directory \<open>/work\<close>.
\<close>

datatype example_reader = Reader bool pdf_writer

definition example_document :: pdf_writer where
  "example_document =
     \<lparr>xmp_metadata = Some ''<x:xmpmeta/>'',
      info = Some [(''/Author'', ''A. N. Author'')],
      objects = [''page 1'', ''page 2'']\<rparr>"

definition example_env :: "example_reader environment" where
  "example_env =
     \<lparr>resolve_arg = (\<lambda>s. [''work'', s]),
      open_error = (\<lambda>p. None),
      replace_error = (\<lambda>src dst. None),
      PdfReader = (\<lambda>content.
        if content = ''plain'' then Inr (Reader False example_document)
        else if content = ''locked'' then Inr (Reader True example_document)
        else Inl (ExternalError ''EOF marker not found'')),
      is_encrypted = (\<lambda>r. case r of Reader e d \<Rightarrow> e),
      decrypt = (\<lambda>r pw. if pw = ''secret'' then (1, r) else (0, r)),
      clone_document_from_reader = (\<lambda>r. case r of Reader e d \<Rightarrow> Inr d),
      write_pdf = (\<lambda>w. Written (concat (objects w)))\<rparr>"

text \<open>The same environment with a writer that fails after the header.\<close>

definition failing_env :: "example_reader environment" where
  "failing_env =
     example_env
       \<lparr>write_pdf := (\<lambda>w. WriteFailed ''%PDF-'' (ExternalError ''No space left on device''))\<rparr>"

definition example_files :: filesystem where
  "example_files = [[''work'', ''a.pdf''] \<mapsto> ''plain'', [''work'', ''s.pdf''] \<mapsto> ''locked'']"

definition example_world :: world where
  "example_world = \<lparr>files = example_files, stdout = [], stderr = []\<rparr>"

section \<open>Properties\<close>

subsection \<open>Names, stems and suffixes\<close>

lemma rfind_append: "rfind c ys = Some i \<Longrightarrow> rfind c (xs @ ys) = Some (length xs + i)"
  by (induction xs) auto

lemma path_name_snoc: "path_name (d @ [n]) = n"
  by (simp add: path_name_def)

lemma rfind_pdf: "rfind (CHR ''.'') (s @ ''.pdf'') = Some (length s)"
  by (simp add: rfind_append)

lemma path_stem_pdf: "s \<noteq> [] \<Longrightarrow> path_stem (d @ [s @ ''.pdf'']) = s"
  by (simp add: path_stem_def path_name_snoc rfind_pdf)

text \<open>
  The stem ends before the last dot of the name, so a name built from the stem and a
  text with a later dot is never the name itself.
\<close>

lemma stem_tmp_neq: "path_stem p @ ''.tmp.pdf'' \<noteq> path_name p"
proof
  assume eq: "path_stem p @ ''.tmp.pdf'' = path_name p"
  show False
  proof (cases "path_stem p = path_name p")
    case True
    with eq show False by simp
  next
    case False
    then obtain i where i: "rfind (CHR ''.'') (path_name p) = Some i"
      and st: "path_stem p = take i (path_name p)" and "i + 1 < length (path_name p)"
      by (auto simp: path_stem_def Let_def split: option.splits if_splits)
    have "rfind (CHR ''.'') (path_stem p @ ''.tmp.pdf'') = Some (length (path_stem p) + 4)"
      by (simp add: rfind_append)
    with eq i st show False by simp
  qed
qed

lemma tmp_path_neq:
  assumes "with_name p (path_stem p @ ''.tmp.pdf'') = Inr t"
  shows "t \<noteq> p"
proof -
  from assms have nm: "path_name p \<noteq> []" and t: "t = butlast p @ [path_stem p @ ''.tmp.pdf'']"
    by (auto simp: with_name_def split: if_splits)
  from nm have "p \<noteq> []" by (auto simp: path_name_def)
  then have "p = butlast p @ [path_name p]" by (simp add: path_name_def)
  with t stem_tmp_neq [of p] show "t \<noteq> p" by (metis append1_eq_conv)
qed

lemma tmp_path_eq:
  "with_name p (path_stem p @ ''.tmp.pdf'') = Inr t \<Longrightarrow> t = butlast p @ [path_stem p @ ''.tmp.pdf'']"
  by (auto simp: with_name_def split: if_splits)

subsection \<open>resolve\_output\_path\<close>

lemma path_str_hd: "\<exists>t. path_str p = CHR ''/'' # t"
  by (cases p) auto

lemma with_name_errors:
  "with_name p n = Inl e \<Longrightarrow>
     e \<noteq> ValueError ''--output can be used only with a single input.'' \<and>
     e \<noteq> ValueError ''Use either --output or --in-place, not both.''"
  using path_str_hd [of p] by (auto simp: with_name_def split: if_splits)

text \<open>
  C7. Without the output argument and without the in-place flag, the output path resolved
  for an input \<open><dir>/<stem>.pdf\<close> is \<open><dir>/<stem>-stripped.pdf\<close>: the same directory,
  the stem suffixed with \<open>-stripped\<close>, the extension \<open>.pdf\<close>. The function returns it
  unless a file of that name exists and the force flag is off, when it raises
  \<^verbatim>\<open>FileExistsError\<close>. A stem is a non-empty text without a separator: pathlib reads the
  name \<open>.pdf\<close> as a stem with no extension, and \<^verbatim>\<open>main\<close> turns such an input away as not
  a PDF file.
\<close>

theorem derived_output_path:
  assumes "s \<noteq> []" and "CHR ''/'' \<notin> set s"
  shows "resolve_output_path env fs (d @ [s @ ''.pdf'']) None False frc multi =
           (if fs (d @ [s @ ''-stripped.pdf'']) \<noteq> None \<and> \<not> frc
              then Inl (FileExistsError (exists_message (d @ [s @ ''-stripped.pdf''])))
            else Inr (d @ [s @ ''-stripped.pdf'']))"
proof -
  have "with_name (d @ [s @ ''.pdf'']) (s @ ''-stripped.pdf'') = Inr (d @ [s @ ''-stripped.pdf''])"
    using assms by (simp add: with_name_def path_name_snoc)
  then have "select_output_path env (d @ [s @ ''.pdf'']) None False multi
      = Inr (d @ [s @ ''-stripped.pdf''])"
    using assms by (simp add: select_output_path_def path_stem_pdf)
  then show ?thesis
    by (simp add: resolve_output_path_def)
qed

theorem derived_output_path_witness:
  "resolve_output_path example_env example_files ([''work''] @ [''a'' @ ''.pdf'']) None False False False
     = Inr [''work'', ''a-stripped.pdf'']"
  using derived_output_path [of "''a''" example_env example_files "[''work'']" False False]
  by (simp add: example_files_def)

text \<open>
  C9. An output argument that is the empty string is treated as absent, for every input:
  the result is the one for no output argument, that is the input path itself under the
  in-place flag and the derived \<open><stem>-stripped.pdf\<close> name otherwise, and neither the
  single-input error nor the conflict error is raised, whatever the number of inputs and the
  in-place flag.
\<close>

theorem empty_output_is_absent:
  "resolve_output_path env fs p (Some []) ip frc multi = resolve_output_path env fs p None ip frc multi
   \<and> resolve_output_path env fs p (Some []) True frc multi = Inr p
   \<and> resolve_output_path env fs p (Some []) False frc multi =
       (case with_name p (path_stem p @ ''-stripped.pdf'') of
          Inl e \<Rightarrow> Inl e
        | Inr out_path \<Rightarrow>
            if fs out_path \<noteq> None \<and> out_path \<noteq> p \<and> \<not> frc
              then Inl (FileExistsError (exists_message out_path))
            else Inr out_path)
   \<and> resolve_output_path env fs p (Some []) ip frc multi
        \<noteq> Inl (ValueError ''--output can be used only with a single input.'')
   \<and> resolve_output_path env fs p (Some []) ip frc multi
        \<noteq> Inl (ValueError ''Use either --output or --in-place, not both.'')"
proof -
  have sel: "select_output_path env p (Some []) ip multi =
      (if ip then Inr p else with_name p (path_stem p @ ''-stripped.pdf''))" for ip
    by (simp add: select_output_path_def)
  have a: "resolve_output_path env fs p (Some []) ip frc multi
      = resolve_output_path env fs p None ip frc multi"
    by (simp add: resolve_output_path_def select_output_path_def)
  have b: "resolve_output_path env fs p (Some []) True frc multi = Inr p"
    by (simp add: resolve_output_path_def sel)
  have c: "resolve_output_path env fs p (Some []) False frc multi =
       (case with_name p (path_stem p @ ''-stripped.pdf'') of
          Inl e \<Rightarrow> Inl e
        | Inr out_path \<Rightarrow>
            if fs out_path \<noteq> None \<and> out_path \<noteq> p \<and> \<not> frc
              then Inl (FileExistsError (exists_message out_path))
            else Inr out_path)"
    by (simp add: resolve_output_path_def sel)
  have d: "resolve_output_path env fs p (Some []) ip frc multi = Inl e \<Longrightarrow>
      e \<noteq> ValueError ''--output can be used only with a single input.'' \<and>
      e \<noteq> ValueError ''Use either --output or --in-place, not both.''" for e
    using with_name_errors [of p "path_stem p @ ''-stripped.pdf''" e]
    by (auto simp: resolve_output_path_def sel split: sum.splits if_splits)
  from a b c d show ?thesis by blast
qed

subsection \<open>The driver\<close>

lemmas example_defs = example_env_def example_world_def example_files_def example_document_def

lemmas path_defs = is_pdf_def lower_def lower_char_def path_suffix_def path_stem_def
  path_name_def with_name_def

lemmas run_defs = main_def resolve_output_path_def select_output_path_def exists_message_def
  strip_metadata_def read_pdf_def unlock_def store_def write_to_def replace_file_def
  processed_line_def

lemma validate_None_iff: "validate fs ps = None \<longleftrightarrow> (\<forall>p\<in>set ps. fs p \<noteq> None \<and> is_pdf p)"
  by (induction ps) auto

lemma validate_append_bad:
  assumes "\<forall>p\<in>set good. fs p \<noteq> None \<and> is_pdf p" and "fs bad = None \<or> \<not> is_pdf bad"
  shows "validate fs (good @ bad # rest) =
           Some (if fs bad = None then ''ERROR: File not found: '' @ path_str bad
                 else ''ERROR: Not a PDF file: '' @ path_str bad)"
  using assms by (induction good) auto

lemma process_inputs_append:
  "process_inputs env a m (xs @ ys) w =
     (case process_inputs env a m xs w of
        (None, w1) \<Rightarrow> process_inputs env a m ys w1
      | (Some exc, w1) \<Rightarrow> (Some exc, w1))"
  by (induction xs arbitrary: w) (auto split: sum.splits prod.splits)

lemma resolve_select:
  "resolve_output_path env fs p oa ip frc m = Inr out_path \<Longrightarrow>
     select_output_path env p oa ip m = Inr out_path"
  by (auto simp: resolve_output_path_def split: sum.splits if_splits)

lemma process_inputs_ok:
  "process_inputs env a m ps w = (None, w') \<Longrightarrow>
     \<exists>outs. map (\<lambda>p. select_output_path env p (output_opt a) (in_place a) m) ps = map Inr outs
       \<and> stdout w' = stdout w @ map2 processed_line ps outs \<and> stderr w' = stderr w"
proof (induction ps arbitrary: w)
  case Nil
  then show ?case by simp
next
  case (Cons p ps)
  from Cons.prems obtain out_path fs' where
    r: "resolve_output_path env (files w) p (output_opt a) (in_place a) (force a) m = Inr out_path"
    and s: "strip_metadata env (files w) p out_path (password a) = (Inr (), fs')"
    and rest: "process_inputs env a m ps
        (w\<lparr>files := fs', stdout := stdout w @ [processed_line p out_path]\<rparr>) = (None, w')"
    by (auto split: sum.splits prod.splits)
  from Cons.IH [OF rest] obtain outs where
    o: "map (\<lambda>p. select_output_path env p (output_opt a) (in_place a) m) ps = map Inr outs"
    and so: "stdout w' = (stdout w @ [processed_line p out_path]) @ map2 processed_line ps outs"
    and se: "stderr w' = stderr w"
    by auto
  have "map (\<lambda>p. select_output_path env p (output_opt a) (in_place a) m) (p # ps)
      = map Inr (out_path # outs)"
    using o resolve_select [OF r] by simp
  moreover have "stdout w' = stdout w @ map2 processed_line (p # ps) (out_path # outs)"
    using so by simp
  ultimately show ?case using se by blast
qed

lemma process_inputs_fail:
  "process_inputs env a m ps w = (Some exc, w') \<Longrightarrow>
     \<exists>pre p rest w1. ps = pre @ p # rest
       \<and> process_inputs env a m pre w = (None, w1)
       \<and> process_inputs env a m [p] w1 = (Some exc, w')"
proof (induction ps arbitrary: w)
  case Nil
  then show ?case by simp
next
  case (Cons p ps)
  show ?case
  proof (cases "process_inputs env a m [p] w")
    case (Pair r w2)
    show ?thesis
    proof (cases r)
      case None
      with Pair Cons.prems have "process_inputs env a m ps w2 = (Some exc, w')"
        using process_inputs_append [of env a m "[p]" ps w] by simp
      from Cons.IH [OF this] obtain pre q rest w1 where
        "ps = pre @ q # rest" "process_inputs env a m pre w2 = (None, w1)"
        "process_inputs env a m [q] w1 = (Some exc, w')" by blast
      moreover from this Pair None have "process_inputs env a m (p # pre) w = (None, w1)"
        using process_inputs_append [of env a m "[p]" "pre" w] by simp
      ultimately have "p # ps = (p # pre) @ q # rest \<and>
          process_inputs env a m (p # pre) w = (None, w1) \<and>
          process_inputs env a m [q] w1 = (Some exc, w')" by simp
      then show ?thesis by blast
    next
      case (Some e)
      with Pair Cons.prems have "e = exc" "w2 = w'"
        using process_inputs_append [of env a m "[p]" ps w] by simp_all
      with Pair Some have "p # ps = [] @ p # ps \<and> process_inputs env a m [] w = (None, w)
          \<and> process_inputs env a m [p] w = (Some exc, w')" by simp
      then show ?thesis by blast
    qed
  qed
qed

lemma step_fail:
  "process_inputs env a m [p] w = (Some exc, w') \<Longrightarrow>
     stdout w' = stdout w \<and> stderr w' = stderr w \<and>
     ((resolve_output_path env (files w) p (output_opt a) (in_place a) (force a) m = Inl exc \<and> w' = w)
      \<or> (\<exists>out_path fs'.
            resolve_output_path env (files w) p (output_opt a) (in_place a) (force a) m = Inr out_path
          \<and> strip_metadata env (files w) p out_path (password a) = (Inl exc, fs')
          \<and> w' = w\<lparr>files := fs'\<rparr>))"
  by (auto split: sum.splits prod.splits)

text \<open>
  C3. When some input path does not exist or has an extension other than \<open>.pdf\<close>
  (compared without case), the run prints one line to the error stream, for the first such
  path in the order given: \<open>ERROR: File not found: <path>\<close> when that path does not
  exist, \<open>ERROR: Not a PDF file: <path>\<close> otherwise. It exits with code 1, and the files
  and the standard output are as they were: the first loop checks every input before the
  second loop touches a file.
\<close>

theorem validation_fails_fast:
  assumes "\<exists>p\<in>set (map (resolve_arg env) (inputs a)). files w p = None \<or> \<not> is_pdf p"
  shows "\<exists>good bad rest.
           map (resolve_arg env) (inputs a) = good @ bad # rest
         \<and> (\<forall>p\<in>set good. files w p \<noteq> None \<and> is_pdf p)
         \<and> (files w bad = None \<or> \<not> is_pdf bad)
         \<and> main env a w =
             (1, w\<lparr>stderr := stderr w @
                   [if files w bad = None then ''ERROR: File not found: '' @ path_str bad
                    else ''ERROR: Not a PDF file: '' @ path_str bad]\<rparr>)"
proof -
  from split_list_first_prop [OF assms] obtain good bad rest where
    ps: "map (resolve_arg env) (inputs a) = good @ bad # rest"
    and bad: "files w bad = None \<or> \<not> is_pdf bad"
    and good: "\<forall>p\<in>set good. \<not> (files w p = None \<or> \<not> is_pdf p)"
    by blast
  from good have good': "\<forall>p\<in>set good. files w p \<noteq> None \<and> is_pdf p" by simp
  have "main env a w =
      (1, w\<lparr>stderr := stderr w @
            [if files w bad = None then ''ERROR: File not found: '' @ path_str bad
             else ''ERROR: Not a PDF file: '' @ path_str bad]\<rparr>)"
    using validate_append_bad [OF good' bad, of rest] ps by (simp add: main_def)
  with ps good' bad show ?thesis by blast
qed

theorem validation_fails_fast_witness:
  "(\<exists>p\<in>set (map (resolve_arg example_env) [''a.pdf'', ''notes.txt'', ''s.pdf'']).
       files example_world p = None \<or> \<not> is_pdf p)
   \<and> main example_env
        \<lparr>inputs = [''a.pdf'', ''notes.txt'', ''s.pdf''], output_opt = None, in_place = False,
         password = None, force = False\<rparr> example_world
      = (1, example_world\<lparr>stderr := [''ERROR: File not found: /work/notes.txt'']\<rparr>)"
proof -
  let ?a = "\<lparr>inputs = [''a.pdf'', ''notes.txt'', ''s.pdf''], output_opt = None, in_place = False,
         password = None, force = False\<rparr>"
  have h: "\<exists>p\<in>set (map (resolve_arg example_env) (inputs ?a)).
       files example_world p = None \<or> \<not> is_pdf p"
    by (simp add: example_env_def example_world_def example_files_def)
  from validation_fails_fast [OF h] obtain good bad rest where
    ps: "map (resolve_arg example_env) (inputs ?a) = good @ bad # rest"
    and good: "\<forall>p\<in>set good. files example_world p \<noteq> None \<and> is_pdf p"
    and bad: "files example_world bad = None \<or> \<not> is_pdf bad"
    and m: "main example_env ?a example_world =
             (1, example_world\<lparr>stderr := stderr example_world @
                   [if files example_world bad = None then ''ERROR: File not found: '' @ path_str bad
                    else ''ERROR: Not a PDF file: '' @ path_str bad]\<rparr>)"
    by blast
  have "main example_env ?a example_world
      = (1, example_world\<lparr>stderr := [''ERROR: File not found: /work/notes.txt'']\<rparr>)"
    by (simp add: main_def example_env_def example_world_def example_files_def is_pdf_def
        lower_def lower_char_def path_suffix_def path_name_def)
  with h show ?thesis by simp
qed

lemma resolve_conflict:
  assumes "s \<noteq> []" and "multi \<or> ip"
  shows "resolve_output_path env fs p (Some s) ip frc multi =
           Inl (ValueError (if multi then ''--output can be used only with a single input.''
                            else ''Use either --output or --in-place, not both.''))"
  using assms by (auto simp: resolve_output_path_def select_output_path_def)

text \<open>
  C4. With a (non-empty) output argument, \<^verbatim>\<open>resolve_output_path\<close> raises a
  \<^verbatim>\<open>ValueError\<close> whenever there are several inputs and whenever the in-place flag is set
  (the single-input message when both hold). A run with such arguments and at least one
  input exits with code 1 after one line on the error stream, the line of the validation
  when an input is turned away there, the configuration error otherwise, and it leaves the
  files and the standard output as they were.
\<close>

theorem output_conflicts:
  assumes "s \<noteq> []" and "multi \<or> ip"
    and "output_opt a = Some s" and "inputs a \<noteq> []"
    and "1 < length (inputs a) \<or> in_place a"
  shows "resolve_output_path env fs p (Some s) ip frc multi =
           Inl (ValueError (if multi then ''--output can be used only with a single input.''
                            else ''Use either --output or --in-place, not both.''))
       \<and> main env a w =
           (1, w\<lparr>stderr := stderr w @
                 [case validate (files w) (map (resolve_arg env) (inputs a)) of
                    Some line \<Rightarrow> line
                  | None \<Rightarrow> ''ERROR: '' @
                      (if 1 < length (inputs a)
                         then ''--output can be used only with a single input.''
                       else ''Use either --output or --in-place, not both.'')]\<rparr>)"
proof -
  obtain x xs where xs: "inputs a = x # xs"
    using assms(4) by (cases "inputs a") auto
  have step: "process_inputs env a (1 < length (inputs a)) (map (resolve_arg env) (inputs a)) w =
      (Some (ValueError (if 1 < length (inputs a)
                         then ''--output can be used only with a single input.''
                       else ''Use either --output or --in-place, not both.'')), w)"
    using resolve_conflict [OF assms(1) assms(5), of env "files w" "resolve_arg env x" "force a"]
      assms(3) by (simp add: xs)
  have "main env a w =
           (1, w\<lparr>stderr := stderr w @
                 [case validate (files w) (map (resolve_arg env) (inputs a)) of
                    Some line \<Rightarrow> line
                  | None \<Rightarrow> ''ERROR: '' @
                      (if 1 < length (inputs a)
                         then ''--output can be used only with a single input.''
                       else ''Use either --output or --in-place, not both.'')]\<rparr>)"
    using step by (cases "1 < length (inputs a)") (simp_all add: main_def split: option.splits)
  with resolve_conflict [OF assms(1,2)] show ?thesis by blast
qed

theorem output_conflicts_witness:
  "''out.pdf'' \<noteq> [] \<and> (True \<or> False)
   \<and> main example_env
        \<lparr>inputs = [''a.pdf'', ''s.pdf''], output_opt = Some ''out.pdf'', in_place = False,
         password = None, force = False\<rparr> example_world
      = (1, example_world
           \<lparr>stderr := [''ERROR: --output can be used only with a single input.'']\<rparr>)"
proof -
  let ?a = "\<lparr>inputs = [''a.pdf'', ''s.pdf''], output_opt = Some ''out.pdf'', in_place = False,
         password = None, force = False\<rparr>"
  have v: "validate (files example_world) (map (resolve_arg example_env) (inputs ?a)) = None"
    by (simp add: example_env_def example_world_def example_files_def is_pdf_def
        lower_def lower_char_def path_suffix_def path_name_def)
  have "main example_env ?a example_world
      = (1, example_world
           \<lparr>stderr := [''ERROR: --output can be used only with a single input.'']\<rparr>)"
    using output_conflicts [of "''out.pdf''" True False ?a example_env "files example_world"
        "[''work'', ''a.pdf'']" False example_world] v
    by (simp add: example_world_def)
  then show ?thesis by simp
qed


text \<open>
  C5. Let \<open>out_path\<close> be the path chosen for an input \<open>p\<close>. If it exists, is not \<open>p\<close>
  and the force flag is off, \<^verbatim>\<open>resolve_output_path\<close> raises the \<^verbatim>\<open>FileExistsError\<close> whose
  message names the path; if it is \<open>p\<close> itself the function returns it, whatever exists and
  whatever the flag. In a run that reaches \<open>p\<close> after the inputs \<open>pre\<close> in the world
  \<open>w1\<close>, the exit code is 1 and the world left is \<open>w1\<close> with the one error line added:
  no file is changed by the refused input, the existing one at \<open>out_path\<close> included.
\<close>

theorem existing_output_refused:
  assumes "select_output_path env p oa ip multi = Inr out_path"
  shows "(fs out_path \<noteq> None \<and> out_path \<noteq> p \<and> \<not> frc \<longrightarrow>
            resolve_output_path env fs p oa ip frc multi
              = Inl (FileExistsError (exists_message out_path)))
       \<and> (out_path = p \<longrightarrow> resolve_output_path env fs p oa ip frc multi = Inr p)
       \<and> (\<forall>a w pre rest w1.
            oa = output_opt a \<and> ip = in_place a \<and> frc = force a
          \<and> map (resolve_arg env) (inputs a) = pre @ p # rest
          \<and> multi = (1 < length (inputs a))
          \<and> validate (files w) (pre @ p # rest) = None
          \<and> process_inputs env a multi pre w = (None, w1)
          \<and> files w1 out_path \<noteq> None \<and> out_path \<noteq> p \<and> \<not> frc
          \<longrightarrow> main env a w =
                (1, w1\<lparr>stderr := stderr w1 @ [''ERROR: '' @ exists_message out_path]\<rparr>))"
proof -
  have r: "fs out_path \<noteq> None \<Longrightarrow> out_path \<noteq> p \<Longrightarrow> \<not> frc \<Longrightarrow>
      resolve_output_path env fs p oa ip frc multi
        = Inl (FileExistsError (exists_message out_path))" for fs
    using assms by (simp add: resolve_output_path_def)
  have i: "out_path = p \<Longrightarrow> resolve_output_path env fs p oa ip frc multi = Inr p"
    using assms by (simp add: resolve_output_path_def)
  have m: "main env a w =
      (1, w1\<lparr>stderr := stderr w1 @ [''ERROR: '' @ exists_message out_path]\<rparr>)"
    if "oa = output_opt a" "ip = in_place a" "frc = force a"
      and ps: "map (resolve_arg env) (inputs a) = pre @ p # rest"
      and mu: "multi = (1 < length (inputs a))"
      and v: "validate (files w) (pre @ p # rest) = None"
      and pre: "process_inputs env a multi pre w = (None, w1)"
      and ex: "files w1 out_path \<noteq> None" "out_path \<noteq> p" "\<not> frc"
    for a w pre rest w1
  proof -
    have "process_inputs env a multi (p # rest) w1
        = (Some (FileExistsError (exists_message out_path)), w1)"
      using r [of "files w1", OF ex] that(1-3) by simp
    then have "process_inputs env a multi (pre @ p # rest) w
        = (Some (FileExistsError (exists_message out_path)), w1)"
      using pre by (simp add: process_inputs_append)
    moreover have "length (map (resolve_arg env) (inputs a)) = length (inputs a)" by simp
    ultimately show ?thesis
      using v ps mu by (simp add: main_def del: length_map)
  qed
  from r i m show ?thesis by blast
qed

theorem existing_output_refused_witness:
  "select_output_path example_env [''work'', ''a.pdf''] None False False
     = Inr [''work'', ''a-stripped.pdf'']
   \<and> main example_env
        \<lparr>inputs = [''a.pdf''], output_opt = None, in_place = False,
         password = None, force = False\<rparr>
        \<lparr>files = example_files([''work'', ''a-stripped.pdf''] \<mapsto> ''kept''),
         stdout = [], stderr = []\<rparr>
      = (1, \<lparr>files = example_files([''work'', ''a-stripped.pdf''] \<mapsto> ''kept''),
             stdout = [],
             stderr = [''ERROR: Output already exists: /work/a-stripped.pdf (use --force to overwrite).'']\<rparr>)"
proof -
  let ?a = "\<lparr>inputs = [''a.pdf''], output_opt = None, in_place = False,
         password = None, force = False\<rparr>"
  let ?w = "\<lparr>files = example_files([''work'', ''a-stripped.pdf''] \<mapsto> ''kept''),
         stdout = [], stderr = []\<rparr>"
  have sel: "select_output_path example_env [''work'', ''a.pdf''] None False False
     = Inr [''work'', ''a-stripped.pdf'']"
    by (simp add: select_output_path_def with_name_def path_stem_def path_name_def)
  have v: "validate (files ?w) ([] @ [''work'', ''a.pdf''] # []) = None"
    by (simp add: example_files_def is_pdf_def lower_def lower_char_def path_suffix_def
        path_name_def)
  have prem: "None = output_opt ?a \<and> False = in_place ?a \<and> False = force ?a
      \<and> map (resolve_arg example_env) (inputs ?a) = [] @ [''work'', ''a.pdf''] # []
      \<and> False = (1 < length (inputs ?a))
      \<and> validate (files ?w) ([] @ [''work'', ''a.pdf''] # []) = None
      \<and> process_inputs example_env ?a False [] ?w = (None, ?w)
      \<and> files ?w [''work'', ''a-stripped.pdf''] \<noteq> None
      \<and> [''work'', ''a-stripped.pdf''] \<noteq> [''work'', ''a.pdf''] \<and> \<not> False"
    using v by (simp add: example_env_def)
  have "main example_env ?a ?w =
      (1, ?w\<lparr>stderr := stderr ?w @ [''ERROR: '' @ exists_message [''work'', ''a-stripped.pdf'']]\<rparr>)"
    using existing_output_refused [OF sel, of "files ?w" False, THEN conjunct2, THEN conjunct2,
        rule_format, OF prem] .
  with sel show ?thesis by (simp add: exists_message_def)
qed


text \<open>
  C8. After a successful validation the driver takes the inputs in the order given. Either
  every input is resolved and stripped: then the standard output has grown by one
  \<open>Processed: <input> -> <output>\<close> line per input, in order, with the output path chosen
  for it, the error stream is as before and the exit code is 0. Or the inputs split into
  \<open>pre\<close>, all processed, the input \<open>p\<close> at which resolving or stripping raises \<open>exc\<close>, and
  the rest, which is not looked at: then the standard output has one line for each input of
  \<open>pre\<close>, the world is the one left by \<open>pre\<close> (nothing is rolled back) apart from what
  the failing \<^verbatim>\<open>strip_metadata\<close> did to the files, the error stream has grown by the one line
  \<open>ERROR: <message>\<close>, and the exit code is 1.
\<close>

theorem driver_run:
  assumes "ps = map (resolve_arg env) (inputs a)" and "m = (1 < length ps)"
    and "validate (files w) ps = None"
  shows "(\<exists>w' outs.
            process_inputs env a m ps w = (None, w')
          \<and> map (\<lambda>p. select_output_path env p (output_opt a) (in_place a) m) ps = map Inr outs
          \<and> stdout w' = stdout w @ map2 processed_line ps outs
          \<and> stderr w' = stderr w
          \<and> main env a w = (0, w'))
       \<or> (\<exists>exc pre p rest w1 w' outs.
            ps = pre @ p # rest
          \<and> process_inputs env a m pre w = (None, w1)
          \<and> map (\<lambda>p. select_output_path env p (output_opt a) (in_place a) m) pre = map Inr outs
          \<and> stdout w1 = stdout w @ map2 processed_line pre outs
          \<and> stderr w1 = stderr w
          \<and> ((resolve_output_path env (files w1) p (output_opt a) (in_place a) (force a) m
                 = Inl exc \<and> w' = w1)
             \<or> (\<exists>out_path fs'.
                   resolve_output_path env (files w1) p (output_opt a) (in_place a) (force a) m
                     = Inr out_path
                 \<and> strip_metadata env (files w1) p out_path (password a) = (Inl exc, fs')
                 \<and> w' = w1\<lparr>files := fs'\<rparr>))
          \<and> process_inputs env a m (pre @ p # rest) w = (Some exc, w')
          \<and> main env a w = (1, w'\<lparr>stderr := stderr w @ [''ERROR: '' @ message exc]\<rparr>))"
proof (cases "process_inputs env a m ps w")
  case (Pair r w')
  show ?thesis
  proof (cases r)
    case None
    with Pair have ok: "process_inputs env a m ps w = (None, w')" by simp
    from process_inputs_ok [OF ok] obtain outs where
      "map (\<lambda>p. select_output_path env p (output_opt a) (in_place a) m) ps = map Inr outs"
      "stdout w' = stdout w @ map2 processed_line ps outs" "stderr w' = stderr w"
      by blast
    moreover have "main env a w = (0, w')"
      using ok assms by (simp add: main_def)
    ultimately show ?thesis using ok by blast
  next
    case (Some exc)
    with Pair have bad: "process_inputs env a m ps w = (Some exc, w')" by simp
    from process_inputs_fail [OF bad] obtain pre p rest w1 where
      ps: "ps = pre @ p # rest"
      and pre: "process_inputs env a m pre w = (None, w1)"
      and step: "process_inputs env a m [p] w1 = (Some exc, w')"
      by blast
    from process_inputs_ok [OF pre] obtain outs where
      outs: "map (\<lambda>p. select_output_path env p (output_opt a) (in_place a) m) pre = map Inr outs"
      and so: "stdout w1 = stdout w @ map2 processed_line pre outs"
      and se: "stderr w1 = stderr w"
      by blast
    from step_fail [OF step] have
      se': "stderr w' = stderr w1"
      and how: "(resolve_output_path env (files w1) p (output_opt a) (in_place a) (force a) m
                 = Inl exc \<and> w' = w1)
             \<or> (\<exists>out_path fs'.
                   resolve_output_path env (files w1) p (output_opt a) (in_place a) (force a) m
                     = Inr out_path
                 \<and> strip_metadata env (files w1) p out_path (password a) = (Inl exc, fs')
                 \<and> w' = w1\<lparr>files := fs'\<rparr>)"
      by simp_all
    have "main env a w = (1, w'\<lparr>stderr := stderr w @ [''ERROR: '' @ message exc]\<rparr>)"
      using bad assms se se' by (simp add: main_def)
    with ps pre outs so se how bad show ?thesis by blast
  qed
qed

theorem driver_run_witness:
  "validate (files example_world) (map (resolve_arg example_env) [''a.pdf'', ''s.pdf'']) = None
   \<and> fst (main example_env
        \<lparr>inputs = [''a.pdf'', ''s.pdf''], output_opt = None, in_place = False,
         password = None, force = False\<rparr> example_world) = 1
   \<and> stdout (snd (main example_env
        \<lparr>inputs = [''a.pdf'', ''s.pdf''], output_opt = None, in_place = False,
         password = None, force = False\<rparr> example_world))
       = [''Processed: /work/a.pdf -> /work/a-stripped.pdf'']
   \<and> stderr (snd (main example_env
        \<lparr>inputs = [''a.pdf'', ''s.pdf''], output_opt = None, in_place = False,
         password = None, force = False\<rparr> example_world))
       = [''ERROR: Encrypted PDF requires --password: /work/s.pdf'']
   \<and> files (snd (main example_env
        \<lparr>inputs = [''a.pdf'', ''s.pdf''], output_opt = None, in_place = False,
         password = None, force = False\<rparr> example_world)) [''work'', ''a-stripped.pdf'']
       = Some ''page 1page 2''"
proof -
  let ?a = "\<lparr>inputs = [''a.pdf'', ''s.pdf''], output_opt = None, in_place = False,
         password = None, force = False\<rparr>"
  have v: "validate (files example_world) (map (resolve_arg example_env) (inputs ?a)) = None"
    by (simp add: example_defs path_defs)
  have m: "main example_env ?a example_world =
      (1, \<lparr>files = example_files([''work'', ''a-stripped.pdf''] \<mapsto> ''page 1page 2''),
           stdout = [''Processed: /work/a.pdf -> /work/a-stripped.pdf''],
           stderr = [''ERROR: Encrypted PDF requires --password: /work/s.pdf'']\<rparr>)"
    by (simp add: run_defs example_defs path_defs)
  show ?thesis
    using driver_run [OF refl refl v] v m by simp
qed

subsection \<open>strip\_metadata\<close>

lemma write_to_fail:
  "write_to env fs q writer = (Inl e, fs') \<Longrightarrow>
     fs' = fs \<or> (\<exists>partial. write_pdf env writer = WriteFailed partial e \<and> fs' = fs(q \<mapsto> partial))"
  by (auto simp: write_to_def split: option.splits write_outcome.splits)

lemma write_to_ok:
  "write_to env fs q writer = (Inr u, fs') \<Longrightarrow>
     open_error env q = None \<and> (\<exists>content. write_pdf env writer = Written content \<and> fs' = fs(q \<mapsto> content))"
  by (auto simp: write_to_def split: option.splits write_outcome.splits)

lemma replace_file_fail: "replace_file env fs src dst = (Inl e, fs') \<Longrightarrow> fs' = fs"
  by (auto simp: replace_file_def split: option.splits)

lemma replace_file_ok:
  "replace_file env fs src dst = (Inr u, fs') \<Longrightarrow>
     \<exists>content. fs src = Some content \<and> fs' = (fs(dst \<mapsto> content))(src := None)"
  by (auto simp: replace_file_def split: option.splits)

lemma store_fail:
  assumes "store env fs p out_path writer = (Inl e, fs')"
  shows "(out_path = p \<longrightarrow>
            fs' p = fs p \<and> (\<forall>q. with_name p (path_stem p @ ''.tmp.pdf'') \<noteq> Inr q \<longrightarrow> fs' q = fs q))
       \<and> (out_path \<noteq> p \<longrightarrow>
            fs' = fs \<or> (\<exists>partial. write_pdf env writer = WriteFailed partial e
                           \<and> fs' = fs(out_path \<mapsto> partial)))"
proof (cases "out_path = p")
  case False
  with assms have "write_to env fs out_path writer = (Inl e, fs')" by (simp add: store_def)
  from write_to_fail [OF this] False show ?thesis by simp
next
  case True
  show ?thesis
  proof (cases "with_name p (path_stem p @ ''.tmp.pdf'')")
    case (Inl e')
    with assms True have "fs' = fs" by (simp add: store_def)
    with True show ?thesis by simp
  next
    case (Inr tmp)
    have ne: "tmp \<noteq> p" using tmp_path_neq [OF Inr] .
    obtain r fs1 where w: "write_to env fs tmp writer = (r, fs1)" by (cases "write_to env fs tmp writer")
    have "fs' = fs \<or> (\<exists>c. fs' = fs(tmp \<mapsto> c))"
    proof (cases r)
      case (Inl e1)
      with assms True Inr w have "fs' = fs1" "e1 = e" by (simp_all add: store_def)
      with w Inl write_to_fail [of env fs tmp writer e fs'] show ?thesis by auto
    next
      case (Inr u)
      with w write_to_ok [of env fs tmp writer u fs1] obtain c where c: "fs1 = fs(tmp \<mapsto> c)" by auto
      from assms True \<open>with_name p (path_stem p @ ''.tmp.pdf'') = Inr tmp\<close> w Inr
      have "replace_file env fs1 tmp p = (Inl e, fs')" by (simp add: store_def)
      from replace_file_fail [OF this] c show ?thesis by auto
    qed
    with ne True Inr show ?thesis by auto
  qed
qed

lemma store_ok:
  assumes "store env fs p out_path writer = (Inr (), fs')"
  shows "\<exists>content. write_pdf env writer = Written content \<and> fs' out_path = Some content
       \<and> (out_path \<noteq> p \<longrightarrow> fs' = fs(out_path \<mapsto> content))
       \<and> (out_path = p \<longrightarrow>
            (\<exists>tmp. with_name p (path_stem p @ ''.tmp.pdf'') = Inr tmp \<and> tmp \<noteq> p
               \<and> open_error env tmp = None \<and> replace_error env tmp p = None
               \<and> fs' = (fs(tmp := None))(p \<mapsto> content)))"
proof (cases "out_path = p")
  case False
  with assms have "write_to env fs out_path writer = (Inr (), fs')" by (simp add: store_def)
  from write_to_ok [OF this] False show ?thesis by auto
next
  case True
  with assms obtain tmp where tmp: "with_name p (path_stem p @ ''.tmp.pdf'') = Inr tmp"
    by (cases "with_name p (path_stem p @ ''.tmp.pdf'')") (auto simp: store_def)
  have ne: "tmp \<noteq> p" using tmp_path_neq [OF tmp] .
  obtain r fs1 where w: "write_to env fs tmp writer = (r, fs1)" by (cases "write_to env fs tmp writer")
  with assms True tmp have r: "r = Inr ()" and rep: "replace_file env fs1 tmp p = (Inr (), fs')"
    by (cases r; simp add: store_def)+
  from w r write_to_ok [of env fs tmp writer "()" fs1] obtain c where
    o: "open_error env tmp = None" and c: "write_pdf env writer = Written c" "fs1 = fs(tmp \<mapsto> c)"
    by auto
  from rep have re: "replace_error env tmp p = None"
    by (auto simp: replace_file_def split: option.splits)
  from replace_file_ok [OF rep] c have "fs' = ((fs(tmp \<mapsto> c))(p \<mapsto> c))(tmp := None)" by auto
  with ne have "fs' = (fs(tmp := None))(p \<mapsto> c)" by (auto simp: fun_eq_iff)
  with True tmp ne c o re show ?thesis by auto
qed

lemma strip_metadata_stages:
  assumes "strip_metadata env fs p out_path pw = (r, fs')"
  shows "(fs' = fs \<and> (\<exists>e. r = Inl e))
       \<or> (\<exists>content reader reader' cloned.
             fs p = Some content \<and> PdfReader env content = Inr reader
           \<and> unlock env reader p pw = Inr reader'
           \<and> clone_document_from_reader env reader' = Inr cloned
           \<and> store env fs p out_path (cloned\<lparr>xmp_metadata := None, info := None\<rparr>) = (r, fs'))"
  using assms
  by (auto simp: strip_metadata_def read_pdf_def split: option.splits sum.splits)

text \<open>
  C1. Whenever \<^verbatim>\<open>strip_metadata\<close> returns normally, the file at the output path holds the
  serialisation of a writer whose XMP metadata and whose document information dictionary
  are both cleared and whose other objects are those of the clone of the (decrypted) reader
  of the input file. This holds for a distinct output path and for the in-place rewrite.
\<close>

theorem strip_metadata_output:
  assumes "strip_metadata env fs p out_path pw = (Inr (), fs')"
  shows "\<exists>content reader reader' cloned writer written.
           fs p = Some content \<and> PdfReader env content = Inr reader
         \<and> unlock env reader p pw = Inr reader'
         \<and> clone_document_from_reader env reader' = Inr cloned
         \<and> xmp_metadata writer = None \<and> info writer = None
         \<and> objects writer = objects cloned
         \<and> write_pdf env writer = Written written
         \<and> fs' out_path = Some written"
proof -
  from strip_metadata_stages [OF assms] obtain content reader reader' cloned where
    st: "fs p = Some content" "PdfReader env content = Inr reader"
      "unlock env reader p pw = Inr reader'"
      "clone_document_from_reader env reader' = Inr cloned"
    and s: "store env fs p out_path (cloned\<lparr>xmp_metadata := None, info := None\<rparr>) = (Inr (), fs')"
    by auto
  let ?w = "cloned\<lparr>xmp_metadata := None, info := None\<rparr>"
  from store_ok [OF s] obtain written where
    "write_pdf env ?w = Written written" "fs' out_path = Some written" by blast
  moreover have "xmp_metadata ?w = None" "info ?w = None" "objects ?w = objects cloned"
    by simp_all
  ultimately show ?thesis using st by blast
qed

theorem strip_metadata_output_witness:
  "strip_metadata example_env example_files [''work'', ''a.pdf''] [''work'', ''a-stripped.pdf''] None
     = (Inr (), example_files([''work'', ''a-stripped.pdf''] \<mapsto> ''page 1page 2''))
   \<and> (\<exists>writer written.
         xmp_metadata writer = None \<and> info writer = None
       \<and> objects writer = objects example_document
       \<and> write_pdf example_env writer = Written written
       \<and> (example_files([''work'', ''a-stripped.pdf''] \<mapsto> ''page 1page 2''))
            [''work'', ''a-stripped.pdf''] = Some written)"
proof -
  have run: "strip_metadata example_env example_files [''work'', ''a.pdf'']
      [''work'', ''a-stripped.pdf''] None
     = (Inr (), example_files([''work'', ''a-stripped.pdf''] \<mapsto> ''page 1page 2''))"
    by (simp add: run_defs example_defs path_defs)
  from strip_metadata_output [OF run] obtain content reader reader' cloned writer written where
    c: "example_files [''work'', ''a.pdf''] = Some content"
      "PdfReader example_env content = Inr reader"
      "unlock example_env reader [''work'', ''a.pdf''] None = Inr reader'"
      "clone_document_from_reader example_env reader' = Inr cloned"
    and w: "xmp_metadata writer = None" "info writer = None" "objects writer = objects cloned"
      "write_pdf example_env writer = Written written"
      "(example_files([''work'', ''a-stripped.pdf''] \<mapsto> ''page 1page 2''))
            [''work'', ''a-stripped.pdf''] = Some written"
    by blast
  from c have "cloned = example_document"
    by (auto simp: example_env_def example_files_def unlock_def split: if_splits example_reader.splits)
  with w run show ?thesis by blast
qed

text \<open>
  C2, as stated, fails for the direct write: the output file is opened, which creates it,
  before the writer runs, and nothing removes it when the writer raises. Here the writer
  fails after the header; \<open>/work/out.pdf\<close> did not exist before the call and holds the
  five bytes written afterwards.
\<close>

theorem direct_write_leaves_partial_file:
  "example_files [''work'', ''out.pdf''] = None
   \<and> fst (strip_metadata failing_env example_files [''work'', ''a.pdf''] [''work'', ''out.pdf''] None)
       = Inl (ExternalError ''No space left on device'')
   \<and> snd (strip_metadata failing_env example_files [''work'', ''a.pdf''] [''work'', ''out.pdf''] None)
        [''work'', ''out.pdf''] = Some ''%PDF-''"
  by (simp add: failing_env_def run_defs example_defs path_defs)

text \<open>
  C2, amended. When \<^verbatim>\<open>strip_metadata\<close> raises: in the in-place mode the input file is as it
  was, and so is every file other than the sibling \<open><stem>.tmp.pdf\<close>, since the original is
  replaced only after a complete write; in the direct mode either no file has changed, or
  the writer failed and the output path holds what it had written by then, every other
  file being as it was.
\<close>

theorem failed_strip_frame:
  assumes "strip_metadata env fs p out_path pw = (Inl e, fs')"
  shows "(out_path = p \<longrightarrow>
            fs' p = fs p
          \<and> (\<forall>q. with_name p (path_stem p @ ''.tmp.pdf'') \<noteq> Inr q \<longrightarrow> fs' q = fs q))
       \<and> (out_path \<noteq> p \<longrightarrow>
            fs' = fs
          \<or> (\<exists>writer partial. write_pdf env writer = WriteFailed partial e
                \<and> fs' = fs(out_path \<mapsto> partial)))"
proof -
  from strip_metadata_stages [OF assms] show ?thesis
  proof
    assume "fs' = fs \<and> (\<exists>e'. Inl e = Inl e')"
    then show ?thesis by simp
  next
    assume "\<exists>content reader reader' cloned.
             fs p = Some content \<and> PdfReader env content = Inr reader
           \<and> unlock env reader p pw = Inr reader'
           \<and> clone_document_from_reader env reader' = Inr cloned
           \<and> store env fs p out_path (cloned\<lparr>xmp_metadata := None, info := None\<rparr>) = (Inl e, fs')"
    then obtain cloned where
      "store env fs p out_path (cloned\<lparr>xmp_metadata := None, info := None\<rparr>) = (Inl e, fs')"
      by blast
    from store_fail [OF this] show ?thesis by blast
  qed
qed

theorem failed_strip_frame_witness:
  "strip_metadata failing_env example_files [''work'', ''a.pdf''] [''work'', ''a.pdf''] None
     = (Inl (ExternalError ''No space left on device''),
        example_files([''work'', ''a.tmp.pdf''] \<mapsto> ''%PDF-''))
   \<and> (example_files([''work'', ''a.tmp.pdf''] \<mapsto> ''%PDF-'')) [''work'', ''a.pdf'']
       = example_files [''work'', ''a.pdf'']
   \<and> example_files [''work'', ''a.pdf''] = Some ''plain''"
proof -
  have run: "strip_metadata failing_env example_files [''work'', ''a.pdf''] [''work'', ''a.pdf''] None
     = (Inl (ExternalError ''No space left on device''),
        example_files([''work'', ''a.tmp.pdf''] \<mapsto> ''%PDF-''))"
    by (simp add: failing_env_def run_defs example_defs path_defs)
  from failed_strip_frame [OF run]
  have "(example_files([''work'', ''a.tmp.pdf''] \<mapsto> ''%PDF-'')) [''work'', ''a.pdf'']
       = example_files [''work'', ''a.pdf'']"
    by blast
  moreover have "example_files [''work'', ''a.pdf''] = Some ''plain''"
    by (simp add: example_files_def)
  ultimately show ?thesis using run by blast
qed

text \<open>
  C10. A successful in-place rewrite uses the sibling \<open><stem>.tmp.pdf\<close> of the input, which
  is never the input itself. Afterwards that path does not exist and the input path holds
  the whole written document; no other file has changed. Whatever a file of that name held
  before the call is lost: the call succeeds with the same result for every previous content
  of the temporary path, and the path resolution of the in-place mode accepts the input
  whatever the force flag.
\<close>

theorem in_place_temporary_file:
  assumes "strip_metadata env fs p p pw = (Inr (), fs')"
  shows "\<exists>tmp written.
           with_name p (path_stem p @ ''.tmp.pdf'') = Inr tmp
         \<and> tmp = butlast p @ [path_stem p @ ''.tmp.pdf'']
         \<and> tmp \<noteq> p
         \<and> fs' tmp = None
         \<and> fs' p = Some written
         \<and> fs' = (fs(tmp := None))(p \<mapsto> written)
         \<and> (\<forall>old. strip_metadata env (fs(tmp \<mapsto> old)) p p pw = (Inr (), fs'))
         \<and> (\<forall>old frc multi.
               resolve_output_path env (fs(tmp \<mapsto> old)) p None True frc multi = Inr p)"
proof -
  from strip_metadata_stages [OF assms] obtain content reader reader' cloned where
    st: "fs p = Some content" "PdfReader env content = Inr reader"
      "unlock env reader p pw = Inr reader'"
      "clone_document_from_reader env reader' = Inr cloned"
    and s: "store env fs p p (cloned\<lparr>xmp_metadata := None, info := None\<rparr>) = (Inr (), fs')"
    by auto
  from store_ok [OF s] obtain written tmp where
    w: "write_pdf env (cloned\<lparr>xmp_metadata := None, info := None\<rparr>) = Written written"
    and tmp: "with_name p (path_stem p @ ''.tmp.pdf'') = Inr tmp" "tmp \<noteq> p"
    and os: "open_error env tmp = None" "replace_error env tmp p = None"
    and fs': "fs' = (fs(tmp := None))(p \<mapsto> written)"
    by auto
  have a: "fs' tmp = None" "fs' p = Some written"
    using fs' tmp(2) by simp_all
  have b: "strip_metadata env (fs(tmp \<mapsto> old)) p p pw = (Inr (), fs')" for old
  proof -
    have "((fs(tmp \<mapsto> written))(p \<mapsto> written))(tmp := None) = fs'"
      using fs' tmp(2) by (auto simp: fun_eq_iff)
    then show ?thesis
      using st w tmp os
      by (simp add: strip_metadata_def read_pdf_def store_def write_to_def replace_file_def)
  qed
  have c: "resolve_output_path env (fs(tmp \<mapsto> old)) p None True frc multi = Inr p"
    for old frc multi
    by (simp add: resolve_output_path_def select_output_path_def)
  from tmp a fs' b c tmp_path_eq [OF tmp(1)] show ?thesis by blast
qed

theorem in_place_temporary_file_witness:
  "strip_metadata example_env (example_files([''work'', ''a.tmp.pdf''] \<mapsto> ''precious''))
       [''work'', ''a.pdf''] [''work'', ''a.pdf''] None
     = (Inr (), (example_files([''work'', ''a.tmp.pdf''] := None))
                  ([''work'', ''a.pdf''] \<mapsto> ''page 1page 2''))
   \<and> ((example_files([''work'', ''a.tmp.pdf''] := None))
                  ([''work'', ''a.pdf''] \<mapsto> ''page 1page 2'')) [''work'', ''a.tmp.pdf''] = None"
proof -
  have run: "strip_metadata example_env example_files [''work'', ''a.pdf''] [''work'', ''a.pdf''] None
     = (Inr (), (example_files([''work'', ''a.tmp.pdf''] := None))
                  ([''work'', ''a.pdf''] \<mapsto> ''page 1page 2''))"
    by (simp add: run_defs example_defs path_defs fun_upd_twist)
  from in_place_temporary_file [OF run] obtain tmp where
    tmp: "tmp = butlast [''work'', ''a.pdf''] @ [path_stem [''work'', ''a.pdf''] @ ''.tmp.pdf'']"
    and none: "((example_files([''work'', ''a.tmp.pdf''] := None))
                  ([''work'', ''a.pdf''] \<mapsto> ''page 1page 2'')) tmp = None"
    and indep: "\<forall>old. strip_metadata example_env (example_files(tmp \<mapsto> old))
        [''work'', ''a.pdf''] [''work'', ''a.pdf''] None
     = (Inr (), (example_files([''work'', ''a.tmp.pdf''] := None))
                  ([''work'', ''a.pdf''] \<mapsto> ''page 1page 2''))"
    by blast
  from tmp have "tmp = [''work'', ''a.tmp.pdf'']"
    by (simp add: path_defs)
  with none indep show ?thesis by blast
qed

text \<open>
  C6. Let the input parse to a reader that reports itself encrypted. Without a password, or
  with the empty one, \<^verbatim>\<open>strip_metadata\<close> raises the \<^verbatim>\<open>ValueError\<close> asking for a password;
  with a password for which \<^verbatim>\<open>decrypt\<close> returns 0, it raises the \<^verbatim>\<open>ValueError\<close> of the failed
  decryption; in both cases the file system is as it was. With a password for which
  \<^verbatim>\<open>decrypt\<close> returns a non-zero number the check is passed and the call goes on with the
  decrypted reader as it does for any document; it returns normally, with the stripped
  document at the output path, when the library and the operating system do not fail in
  cloning, opening, writing and replacing.
\<close>

theorem encrypted_input:
  assumes "fs p = Some content" and "PdfReader env content = Inr reader"
    and "is_encrypted env reader"
  shows "(truthy pw = None \<longrightarrow>
            strip_metadata env fs p out_path pw
              = (Inl (ValueError (''Encrypted PDF requires --password: '' @ path_str p)), fs))
       \<and> (\<forall>s reader'. truthy pw = Some s \<and> decrypt env reader s = (0, reader') \<longrightarrow>
            strip_metadata env fs p out_path pw
              = (Inl (ValueError (''Failed to decrypt PDF with provided password: '' @ path_str p)),
                 fs))
       \<and> (\<forall>s n reader'. truthy pw = Some s \<and> decrypt env reader s = (n, reader') \<and> n \<noteq> 0 \<longrightarrow>
            strip_metadata env fs p out_path pw
              = (case clone_document_from_reader env reader' of
                   Inl e \<Rightarrow> (Inl e, fs)
                 | Inr cloned \<Rightarrow>
                     store env fs p out_path (cloned\<lparr>xmp_metadata := None, info := None\<rparr>)))
       \<and> (\<forall>s n reader' cloned written.
            truthy pw = Some s \<and> decrypt env reader s = (n, reader') \<and> n \<noteq> 0
          \<and> clone_document_from_reader env reader' = Inr cloned
          \<and> write_pdf env (cloned\<lparr>xmp_metadata := None, info := None\<rparr>) = Written written
          \<and> out_path \<noteq> p \<and> open_error env out_path = None \<longrightarrow>
            strip_metadata env fs p out_path pw = (Inr (), fs(out_path \<mapsto> written)))
       \<and> (\<forall>s n reader' cloned written tmp.
            truthy pw = Some s \<and> decrypt env reader s = (n, reader') \<and> n \<noteq> 0
          \<and> clone_document_from_reader env reader' = Inr cloned
          \<and> write_pdf env (cloned\<lparr>xmp_metadata := None, info := None\<rparr>) = Written written
          \<and> out_path = p \<and> with_name p (path_stem p @ ''.tmp.pdf'') = Inr tmp
          \<and> open_error env tmp = None \<and> replace_error env tmp p = None \<longrightarrow>
            strip_metadata env fs p out_path pw = (Inr (), (fs(tmp := None))(p \<mapsto> written)))"
proof -
  have rd: "read_pdf env fs p = Inr reader"
    using assms by (simp add: read_pdf_def)
  have a: "truthy pw = None \<Longrightarrow>
      strip_metadata env fs p out_path pw
        = (Inl (ValueError (''Encrypted PDF requires --password: '' @ path_str p)), fs)"
    using assms(3) by (simp add: strip_metadata_def rd unlock_def)
  have b: "truthy pw = Some s \<Longrightarrow> decrypt env reader s = (0, reader') \<Longrightarrow>
      strip_metadata env fs p out_path pw
        = (Inl (ValueError (''Failed to decrypt PDF with provided password: '' @ path_str p)), fs)"
    for s reader'
    using assms(3) by (simp add: strip_metadata_def rd unlock_def)
  have c: "truthy pw = Some s \<Longrightarrow> decrypt env reader s = (n, reader') \<Longrightarrow> n \<noteq> 0 \<Longrightarrow>
      strip_metadata env fs p out_path pw
        = (case clone_document_from_reader env reader' of
             Inl e \<Rightarrow> (Inl e, fs)
           | Inr cloned \<Rightarrow>
               store env fs p out_path (cloned\<lparr>xmp_metadata := None, info := None\<rparr>))"
    for s n reader'
    using assms(3) by (simp add: strip_metadata_def rd unlock_def)
  have d: "strip_metadata env fs p out_path pw = (Inr (), fs(out_path \<mapsto> written))"
    if "truthy pw = Some s" "decrypt env reader s = (n, reader')" "n \<noteq> 0"
      "clone_document_from_reader env reader' = Inr cloned"
      "write_pdf env (cloned\<lparr>xmp_metadata := None, info := None\<rparr>) = Written written"
      "out_path \<noteq> p" "open_error env out_path = None"
    for s n reader' cloned written
    using c [OF that(1-3)] that(4-7) by (simp add: store_def write_to_def)
  have e: "strip_metadata env fs p out_path pw = (Inr (), (fs(tmp := None))(p \<mapsto> written))"
    if "truthy pw = Some s" "decrypt env reader s = (n, reader')" "n \<noteq> 0"
      "clone_document_from_reader env reader' = Inr cloned"
      "write_pdf env (cloned\<lparr>xmp_metadata := None, info := None\<rparr>) = Written written"
      "out_path = p" "with_name p (path_stem p @ ''.tmp.pdf'') = Inr tmp"
      "open_error env tmp = None" "replace_error env tmp p = None"
    for s n reader' cloned written tmp
  proof -
    have ne: "tmp \<noteq> p" using tmp_path_neq [OF that(7)] .
    then have "((fs(tmp \<mapsto> written))(p \<mapsto> written))(tmp := None)
        = (fs(tmp := None))(p \<mapsto> written)"
      by (auto simp: fun_eq_iff)
    then show ?thesis
      using c [OF that(1-3)] that(4-9) by (simp add: store_def write_to_def replace_file_def)
  qed
  show ?thesis
    apply (intro conjI allI impI)
    subgoal using a by blast
    subgoal using b by blast
    subgoal using c by blast
    subgoal using d by blast
    subgoal using e by blast
    done
qed

theorem encrypted_input_witness:
  "example_files [''work'', ''s.pdf''] = Some ''locked''
   \<and> is_encrypted example_env (Reader True example_document)
   \<and> strip_metadata example_env example_files [''work'', ''s.pdf''] [''work'', ''o.pdf''] None
       = (Inl (ValueError ''Encrypted PDF requires --password: /work/s.pdf''), example_files)
   \<and> strip_metadata example_env example_files [''work'', ''s.pdf''] [''work'', ''o.pdf''] (Some ''guess'')
       = (Inl (ValueError ''Failed to decrypt PDF with provided password: /work/s.pdf''),
          example_files)
   \<and> strip_metadata example_env example_files [''work'', ''s.pdf''] [''work'', ''o.pdf''] (Some ''secret'')
       = (Inr (), example_files([''work'', ''o.pdf''] \<mapsto> ''page 1page 2''))"
proof -
  let ?p = "[''work'', ''s.pdf'']" and ?o = "[''work'', ''o.pdf'']"
  let ?r = "Reader True example_document"
  have h1: "example_files ?p = Some ''locked''" by (simp add: example_files_def)
  have h2: "PdfReader example_env ''locked'' = Inr ?r" by (simp add: example_env_def)
  have h3: "is_encrypted example_env ?r" by (simp add: example_env_def)
  note t = encrypted_input [where fs = example_files and p = ?p and env = example_env
      and out_path = ?o, OF h1 h2 h3]
  have a: "strip_metadata example_env example_files ?p ?o None
       = (Inl (ValueError (''Encrypted PDF requires --password: '' @ path_str ?p)), example_files)"
    using t [where pw = None] by simp
  have b: "strip_metadata example_env example_files ?p ?o (Some ''guess'')
       = (Inl (ValueError (''Failed to decrypt PDF with provided password: '' @ path_str ?p)),
          example_files)"
    using t [where pw = "Some ''guess''", THEN conjunct2, THEN conjunct1, rule_format, of "''guess''" ?r]
    by (simp add: example_env_def)
  have c: "strip_metadata example_env example_files ?p ?o (Some ''secret'')
       = (Inr (), example_files(?o \<mapsto> ''page 1page 2''))"
    using t [where pw = "Some ''secret''", THEN conjunct2, THEN conjunct2, THEN conjunct2, THEN conjunct1,
        rule_format, of "''secret''" 1 ?r example_document "''page 1page 2''"]
    by (simp add: example_env_def example_document_def)
  from h1 h3 a b c show ?thesis by simp
qed

end
